theory Spec2Isabelle
  imports Complex_Main
begin

section \<open>Partitioning around medoids (src/src/pam.cpp)\<close>

text \<open>
  A shallow embedding of the PAM implementation. Conventions:
  \<^item> \<open>double\<close> is idealised as \<open>real\<close>; the two limits the code uses,
    \<open>std::numeric_limits<double>::min()\<close> and \<open>::max()\<close>, are the constants
    \<open>dbl_min\<close> and \<open>dbl_max\<close> with their exact values. On the small integer
    matrices evaluated below double arithmetic is exact, so model and code agree there.
  \<^item> \<open>int\<close> object indices are \<open>int\<close> (the refine loop uses \<open>-1\<close> as a sentinel).
  \<^item> \<open>std::set<int>\<close> is the strictly ascending list of its elements, which is the
    order the range-for loops of the source visit them in; \<open>set_insert\<close> and
    \<open>set_erase\<close> are \<open>insert\<close> and \<open>erase\<close>.
  \<^item> \<open>std::vector<int>\<close> is an \<open>int list\<close>, \<open>Eigen::MatrixXd\<close> the list of its rows.
    Element access is unchecked in the source; under the invariant \<open>pam_wf\<close> below
    every index the model uses is an object of \<open>{0..n-1}\<close>.
\<close>

subsection \<open>Numeric limits, matrices and ordered sets\<close>

definition dbl_min :: real where
  "dbl_min = 1 / 2 ^ 1022"

definition dbl_max :: real where
  "dbl_max = (2 ^ 53 - 1) * 2 ^ 971"

type_synonym matrix = "real list list"

definition rows :: "'a list \<Rightarrow> int" where
  "rows m = int (length m)"

definition coeff :: "matrix \<Rightarrow> int \<Rightarrow> int \<Rightarrow> real" where
  "coeff D i j = D ! nat i ! nat j"

definition set_insert :: "int \<Rightarrow> int list \<Rightarrow> int list" where
  "set_insert x xs = (if x \<in> set xs then xs else insort x xs)"

definition set_erase :: "int \<Rightarrow> int list \<Rightarrow> int list" where
  "set_erase x xs = removeAll x xs"

subsection \<open>The clustering state \<open>pam_data\<close> and its mutators\<close>

record pam_result =
  medoids :: "int list"
  classification :: "int list"

record pam_data =
  medoids :: "int list"
  nonselected :: "int list"
  classification :: "int list"
  second_closest_medoid :: "int list"

text \<open>The constructor: the loop inserts \<open>0, ..., number_of_objects - 1\<close> in ascending order.\<close>

definition pam_data_init :: "int \<Rightarrow> int \<Rightarrow> pam_data" where
  "pam_data_init number_of_objects initial_medoid =
     \<lparr> medoids = set_insert initial_medoid [],
       nonselected = set_erase initial_medoid [0 .. number_of_objects - 1],
       classification = replicate (nat number_of_objects) initial_medoid,
       second_closest_medoid = replicate (nat number_of_objects) initial_medoid \<rparr>"

definition assign_medoid :: "pam_data \<Rightarrow> int \<Rightarrow> int \<Rightarrow> pam_data" where
  "assign_medoid c object medoid =
     c\<lparr>classification := (classification c)[nat object := medoid]\<rparr>"

definition add_medoid :: "pam_data \<Rightarrow> int \<Rightarrow> pam_data" where
  "add_medoid c medoid =
     assign_medoid
       (c\<lparr>medoids := set_insert medoid (medoids c),
          nonselected := set_erase medoid (nonselected c)\<rparr>)
       medoid medoid"

definition swap_medoid :: "pam_data \<Rightarrow> int \<Rightarrow> int \<Rightarrow> pam_data" where
  "swap_medoid c old_medoid new_medoid =
     (let c1 = c\<lparr>medoids := set_erase old_medoid (medoids c),
                 nonselected := set_insert old_medoid (nonselected c)\<rparr>;
          c2 = add_medoid c1 new_medoid;
          c3 = c2\<lparr>classification :=
                  map (\<lambda>medoid. if medoid = old_medoid then new_medoid else medoid)
                    (classification c2)\<rparr>
      in c3\<lparr>second_closest_medoid :=
              map (\<lambda>medoid. if medoid = old_medoid then new_medoid else medoid)
                (second_closest_medoid c3)\<rparr>)"

subsection \<open>Build\<close>

text \<open>
  \<open>minCoeff(&index)\<close> of Eigen: the index of the first minimal coefficient. The scan
  keeps the running minimum and replaces it only by a strictly smaller coefficient.
\<close>

fun min_index_from :: "real list \<Rightarrow> int \<Rightarrow> int \<Rightarrow> real \<Rightarrow> int" where
  "min_index_from [] i best v = best"
| "min_index_from (x # xs) i best v =
     (if x < v then min_index_from xs (i + 1) i x else min_index_from xs (i + 1) best v)"

definition minCoeff :: "real list \<Rightarrow> int" where
  "minCoeff v = (case v of [] \<Rightarrow> 0 | x # xs \<Rightarrow> min_index_from xs 1 0 x)"

definition find_initial_medoid :: "matrix \<Rightarrow> int" where
  "find_initial_medoid distances = minCoeff (map sum_list distances)"

definition gain :: "matrix \<Rightarrow> pam_data \<Rightarrow> int \<Rightarrow> real" where
  "gain distances clustering i =
     fold (\<lambda>j g. g + max (coeff distances j (classification clustering ! nat j)
                          - coeff distances j i) 0)
       (set_erase i (nonselected clustering)) 0"

definition next_medoid_step :: "matrix \<Rightarrow> pam_data \<Rightarrow> int \<Rightarrow> real \<times> int \<Rightarrow> real \<times> int" where
  "next_medoid_step distances clustering i s =
     (if gain distances clustering i > fst s then (gain distances clustering i, i) else s)"

definition find_next_medoid :: "matrix \<Rightarrow> pam_data \<Rightarrow> int" where
  "find_next_medoid distances clustering =
     snd (fold (next_medoid_step distances clustering) (nonselected clustering) (dbl_min, 0))"

text \<open>The body of the inner loop of \<open>reclassify_objects\<close>, for one object and one medoid.\<close>

definition reclassify_step :: "matrix \<Rightarrow> int \<Rightarrow> int \<Rightarrow> pam_data \<Rightarrow> pam_data" where
  "reclassify_step distances object medoid c =
     (let object_medoid = classification c ! nat object in
      if object_medoid \<noteq> medoid then
        (let second = second_closest_medoid c ! nat object;
             current_distance = coeff distances object object_medoid;
             second_distance = coeff distances object second;
             potential_distance = coeff distances object medoid
         in if potential_distance < current_distance then
              (assign_medoid c object medoid)
                \<lparr>second_closest_medoid := (second_closest_medoid c)[nat object := object_medoid]\<rparr>
            else if potential_distance < second_distance then
              c\<lparr>second_closest_medoid := (second_closest_medoid c)[nat object := medoid]\<rparr>
            else c)
      else c)"

definition reclassify_object :: "matrix \<Rightarrow> int \<Rightarrow> real \<times> pam_data \<Rightarrow> real \<times> pam_data" where
  "reclassify_object distances object s =
     (let c = fold (reclassify_step distances object) (medoids (snd s)) (snd s)
      in (fst s + coeff distances object (classification c ! nat object), c))"

text \<open>Returns the total dissimilarity and the updated state.\<close>

definition reclassify_objects :: "matrix \<Rightarrow> pam_data \<Rightarrow> real \<times> pam_data" where
  "reclassify_objects distances clustering =
     fold (reclassify_object distances) (nonselected clustering) (0, clustering)"

fun build_loop :: "nat \<Rightarrow> matrix \<Rightarrow> pam_data \<Rightarrow> pam_data" where
  "build_loop 0 distances c = c"
| "build_loop (Suc n) distances c =
     build_loop n distances
       (snd (reclassify_objects distances (add_medoid c (find_next_medoid distances c))))"

definition build :: "int \<Rightarrow> matrix \<Rightarrow> pam_data" where
  "build k distances =
     build_loop (nat (k - 1)) distances
       (pam_data_init (rows distances) (find_initial_medoid distances))"

subsection \<open>Refine\<close>

definition swap_contribution_code :: "matrix \<Rightarrow> pam_data \<Rightarrow> int \<Rightarrow> int \<Rightarrow> int \<Rightarrow> real" where
  "swap_contribution_code distances clustering i h j =
     (let D_j = coeff distances j (classification clustering ! nat j);
          d_j_i = coeff distances j i;
          d_j_h = coeff distances j h
      in if D_j \<ge> d_j_i then
           (let E_j = coeff distances j (second_closest_medoid clustering ! nat j)
            in if d_j_h < E_j then d_j_h - d_j_i else E_j - d_j_i)
         else if D_j < d_j_i \<and> D_j > d_j_h then d_j_h - D_j
         else 0)"

definition calculate_swap_cost :: "matrix \<Rightarrow> int \<Rightarrow> int \<Rightarrow> pam_data \<Rightarrow> real" where
  "calculate_swap_cost distances i h clustering =
     fold (\<lambda>j total_contribution.
             total_contribution + swap_contribution_code distances clustering i h j)
       (set_erase h (nonselected clustering)) 0"

text \<open>
  The two nested loops of \<open>refine\<close> that look for the cheapest swap; the loop state is
  \<open>(minimum_contribution, old_medoid, new_medoid)\<close>.
\<close>

definition best_swap_step ::
  "matrix \<Rightarrow> pam_data \<Rightarrow> int \<Rightarrow> int \<Rightarrow> real \<times> int \<times> int \<Rightarrow> real \<times> int \<times> int" where
  "best_swap_step distances clustering i h s =
     (if calculate_swap_cost distances i h clustering < fst s
      then (calculate_swap_cost distances i h clustering, i, h) else s)"

definition best_swap :: "matrix \<Rightarrow> pam_data \<Rightarrow> real \<times> int \<times> int" where
  "best_swap distances clustering =
     fold (\<lambda>i. fold (best_swap_step distances clustering i) (nonselected clustering))
       (medoids clustering) (dbl_max, - 1, - 1)"

text \<open>
  One iteration of the \<open>while\<close> loop: \<open>Some\<close> of the next state when a swap is performed,
  \<open>None\<close> when \<open>perform_swaps\<close> becomes false.
\<close>

definition refine_step :: "matrix \<Rightarrow> pam_data \<Rightarrow> pam_data option" where
  "refine_step distances clustering =
     (let s = best_swap distances clustering;
          minimum_contribution = fst s; old_medoid = fst (snd s); new_medoid = snd (snd s)
      in if minimum_contribution < 0 \<and> old_medoid \<ge> 0 \<and> new_medoid \<ge> 0
         then Some (snd (reclassify_objects distances
                          (swap_medoid clustering old_medoid new_medoid)))
         else None)"

text \<open>The loop itself may run forever: \<open>None\<close> is the run that never leaves the loop.\<close>

partial_function (option) refine :: "matrix \<Rightarrow> pam_data \<Rightarrow> pam_data option" where
  "refine distances clustering =
     (case refine_step distances clustering of
        None \<Rightarrow> Some clustering
      | Some c \<Rightarrow> refine distances c)"

declare refine.simps [code]

subsection \<open>The entry point\<close>

datatype error = LessThanTwoPartitions | NotEnoughRows

text \<open>
  \<open>calculate_distance_matrix\<close> lives in \<open>clupp/distance.hpp\<close>, outside these sources; it is
  the parameter \<open>cdm\<close>. The outer \<open>option\<close> is the termination of \<open>refine\<close>, the sum
  the exception or the result.
\<close>

definition partition_around_medoids ::
  "('obs list \<Rightarrow> matrix) \<Rightarrow> int \<Rightarrow> 'obs list \<Rightarrow> (error + pam_result) option" where
  "partition_around_medoids cdm k matrix =
     (if k < 2 then Some (Inl LessThanTwoPartitions)
      else if rows matrix < k then Some (Inl NotEnoughRows)
      else (let distances = cdm matrix in
            case refine distances (build k distances) of
              None \<Rightarrow> None
            | Some c \<Rightarrow>
                Some (Inr \<lparr> pam_result.medoids = medoids c,
                            pam_result.classification = classification c \<rparr>)))"

subsection \<open>The swap cost as the specification words it\<close>

text \<open>
  The contribution of one object \<open>j\<close> to the cost of replacing medoid \<open>i\<close> by \<open>h\<close>,
  written as the four cases of the specification (and not as the nested conditionals
  of the source, which are \<open>swap_contribution_code\<close>).
\<close>

definition swap_contribution :: "matrix \<Rightarrow> pam_data \<Rightarrow> int \<Rightarrow> int \<Rightarrow> int \<Rightarrow> real" where
  "swap_contribution distances clustering i h j =
     (let D_j = coeff distances j (classification clustering ! nat j);
          d_j_i = coeff distances j i;
          d_j_h = coeff distances j h;
          E_j = coeff distances j (second_closest_medoid clustering ! nat j)
      in if D_j \<ge> d_j_i \<and> d_j_h < E_j then d_j_h - d_j_i
         else if D_j \<ge> d_j_i \<and> d_j_h \<ge> E_j then E_j - d_j_i
         else if D_j < d_j_i \<and> D_j > d_j_h then d_j_h - D_j
         else 0)"

subsection \<open>Invariants of the clustering state\<close>

text \<open>
  \<open>pam_wf n\<close>: both sets are strictly ascending, they partition \<open>{0..n-1}\<close>, both vectors
  have length \<open>n\<close> and hold medoids only. Under it every index the model reads or
  writes is in range.
\<close>

definition pam_wf :: "nat \<Rightarrow> pam_data \<Rightarrow> bool" where
  "pam_wf n c \<longleftrightarrow>
     sorted (medoids c) \<and> distinct (medoids c) \<and>
     sorted (nonselected c) \<and> distinct (nonselected c) \<and>
     set (medoids c) \<union> set (nonselected c) = {0..<int n} \<and>
     set (medoids c) \<inter> set (nonselected c) = {} \<and>
     length (classification c) = n \<and> length (second_closest_medoid c) = n \<and>
     set (classification c) \<subseteq> set (medoids c) \<and>
     set (second_closest_medoid c) \<subseteq> set (medoids c)"

definition self_assigned :: "pam_data \<Rightarrow> bool" where
  "self_assigned c \<longleftrightarrow> (\<forall>m\<in>set (medoids c). classification c ! nat m = m)"

definition pam_inv :: "nat \<Rightarrow> int list \<Rightarrow> int list \<Rightarrow> pam_data \<Rightarrow> bool" where
  "pam_inv n M N c \<longleftrightarrow> pam_wf n c \<and> self_assigned c \<and> medoids c = M \<and> nonselected c = N"

definition nonneg_indices :: "pam_data \<Rightarrow> bool" where
  "nonneg_indices c \<longleftrightarrow> list_all (\<lambda>x. 0 \<le> x) (medoids c @ nonselected c)"

text \<open>The state of the search loops of \<open>refine\<close>: still the sentinel, or a pair of the two sets.\<close>

definition swap_candidate :: "int set \<Rightarrow> int set \<Rightarrow> real \<times> int \<times> int \<Rightarrow> bool" where
  "swap_candidate A B s \<longleftrightarrow>
     s = (dbl_max, - 1, - 1) \<or> (fst (snd s) \<in> A \<and> snd (snd s) \<in> B)"

text \<open>
  The states a run goes through: after the constructor (line 177), after each
  \<open>add_medoid\<close> of \<open>build\<close> (line 181), after each \<open>reclassify_objects\<close> (lines 182 and
  246) and after each \<open>swap_medoid\<close> of \<open>refine\<close> (line 245, under the guard of line 244).
\<close>

inductive pam_point :: "matrix \<Rightarrow> pam_data \<Rightarrow> bool" for distances where
  constructed:
    "pam_point distances (pam_data_init (rows distances) (find_initial_medoid distances))"
| added:
    "pam_point distances c \<Longrightarrow>
     pam_point distances (add_medoid c (find_next_medoid distances c))"
| reclassified:
    "pam_point distances c \<Longrightarrow> pam_point distances (snd (reclassify_objects distances c))"
| swapped:
    "pam_point distances c \<Longrightarrow> best_swap distances c = (mc, old_medoid, new_medoid) \<Longrightarrow>
     mc < 0 \<Longrightarrow> 0 \<le> old_medoid \<Longrightarrow> 0 \<le> new_medoid \<Longrightarrow>
     pam_point distances (swap_medoid c old_medoid new_medoid)"

subsection \<open>Concrete inputs\<close>

text \<open>
  A distance matrix as the specification asks of the distance provider: square,
  non-negative, zero on the diagonal, symmetric.
\<close>

definition valid_distances :: "matrix \<Rightarrow> bool" where
  "valid_distances D \<longleftrightarrow>
     list_all (\<lambda>row. length row = length D \<and> list_all (\<lambda>x. 0 \<le> x) row) D \<and>
     list_all (\<lambda>i. D ! i ! i = 0 \<and> list_all (\<lambda>j. D ! i ! j = D ! j ! i) [0..<length D])
       [0..<length D]"

text \<open>All pairwise distances between different objects of \<open>{0..n-1}\<close> are \<open>d\<close>.\<close>

definition all_equal_distances :: "nat \<Rightarrow> matrix \<Rightarrow> real \<Rightarrow> bool" where
  "all_equal_distances n D d \<longleftrightarrow>
     list_all (\<lambda>a. list_all (\<lambda>b. a = b \<or> coeff D a b = d) [0 .. int n - 1]) [0 .. int n - 1]"

text \<open>
  One instance of the distance provider: observations are points of the real line, their
  dissimilarity is the Euclidean distance.
\<close>

definition line_distances :: "real list \<Rightarrow> matrix" where
  "line_distances xs = map (\<lambda>a. map (\<lambda>b. \<bar>a - b\<bar>) xs) xs"

definition six_points :: "real list" where
  "six_points = [0, 1, 2, 3, 5, 6]"

definition six_points_a :: pam_data where
  "six_points_a =
     \<lparr> medoids = [2, 4], nonselected = [0, 1, 3, 5],
       classification = [2, 2, 2, 2, 4, 4], second_closest_medoid = [2, 2, 2, 2, 2, 2] \<rparr>"

definition six_points_b :: pam_data where
  "six_points_b =
     \<lparr> medoids = [1, 4], nonselected = [0, 2, 3, 5],
       classification = [1, 1, 1, 1, 4, 4], second_closest_medoid = [1, 1, 1, 1, 1, 1] \<rparr>"

definition three_points :: "real list" where
  "three_points = [0, 1, 3]"

definition three_points_start :: pam_data where
  "three_points_start =
     \<lparr> medoids = [1], nonselected = [0, 2],
       classification = [1, 1, 1], second_closest_medoid = [1, 1, 1] \<rparr>"

definition middle_first :: "real list" where
  "middle_first = [1, 0, 2]"

definition three_points_second :: pam_data where
  "three_points_second =
     \<lparr> medoids = [0, 1], nonselected = [2],
       classification = [0, 1, 1], second_closest_medoid = [1, 1, 1] \<rparr>"

definition middle_first_start :: pam_data where
  "middle_first_start =
     \<lparr> medoids = [0], nonselected = [1, 2],
       classification = [0, 0, 0], second_closest_medoid = [0, 0, 0] \<rparr>"

definition two_pairs :: "real list" where
  "two_pairs = [0, 1, 10, 11]"

definition two_pairs_built :: pam_data where
  "two_pairs_built =
     \<lparr> medoids = [1, 2], nonselected = [0, 3],
       classification = [1, 1, 2, 2], second_closest_medoid = [1, 1, 1, 1] \<rparr>"

definition five_points :: "real list" where
  "five_points = [3, 0, 1, 10, 12]"

definition five_points_built :: pam_data where
  "five_points_built =
     \<lparr> medoids = [0, 3], nonselected = [1, 2, 4],
       classification = [0, 0, 0, 3, 3], second_closest_medoid = [0, 0, 0, 0, 0] \<rparr>"

definition five_points_refined :: pam_data where
  "five_points_refined =
     \<lparr> medoids = [2, 3], nonselected = [0, 1, 4],
       classification = [2, 2, 2, 3, 3], second_closest_medoid = [2, 2, 2, 2, 2] \<rparr>"

text \<open>Five objects at distance 1 from each other, and the state Build starts from.\<close>

definition equidistant :: matrix where
  "equidistant =
     [[0, 1, 1, 1, 1], [1, 0, 1, 1, 1], [1, 1, 0, 1, 1], [1, 1, 1, 0, 1], [1, 1, 1, 1, 0]]"

section \<open>Properties of the ordered sets and of the state invariants\<close>

lemma set_set_insert: "set (set_insert x xs) = insert x (set xs)"
  by (auto simp: set_insert_def set_insort_key)

lemma set_set_erase: "set (set_erase x xs) = set xs - {x}"
  by (auto simp: set_erase_def)

lemma sorted_set_insert: "sorted xs \<Longrightarrow> sorted (set_insert x xs)"
  by (simp add: set_insert_def sorted_insort)

lemma distinct_set_insert: "distinct xs \<Longrightarrow> distinct (set_insert x xs)"
  by (simp add: set_insert_def distinct_insort)

lemma sorted_set_erase: "sorted xs \<Longrightarrow> sorted (set_erase x xs)"
  unfolding set_erase_def removeAll_filter_not_eq by (rule sorted_wrt_filter)

lemma distinct_set_erase: "distinct xs \<Longrightarrow> distinct (set_erase x xs)"
  by (simp add: set_erase_def distinct_removeAll)

lemmas std_set_simps = set_set_insert set_set_erase sorted_set_insert distinct_set_insert
  sorted_set_erase distinct_set_erase

lemma fold_invariant:
  "(\<And>x s. x \<in> set xs \<Longrightarrow> P s \<Longrightarrow> P (f x s)) \<Longrightarrow> P s \<Longrightarrow> P (fold f xs s)"
  by (induction xs arbitrary: s) auto

lemma pam_data_init_wf:
  assumes "0 \<le> m" "m < int n"
  shows "pam_wf n (pam_data_init (int n) m)"
  using assms by (auto simp: pam_wf_def pam_data_init_def std_set_simps)

lemma pam_data_init_self:
  assumes "0 \<le> m" "m < int n"
  shows "self_assigned (pam_data_init (int n) m)"
  using assms by (auto simp: self_assigned_def pam_data_init_def std_set_simps)

lemma min_index_from_range:
  "0 \<le> best \<Longrightarrow> best < i \<Longrightarrow>
   0 \<le> min_index_from xs i best v \<and> min_index_from xs i best v < i + int (length xs)"
proof (induction xs arbitrary: i best v)
  case Nil
  then show ?case by simp
next
  case (Cons x xs)
  have a: "0 \<le> min_index_from xs (i + 1) i x \<and> min_index_from xs (i + 1) i x < i + 1 + int (length xs)"
    using Cons.prems by (intro Cons.IH) auto
  have b: "0 \<le> min_index_from xs (i + 1) best v \<and> min_index_from xs (i + 1) best v < i + 1 + int (length xs)"
    using Cons.prems by (intro Cons.IH) auto
  show ?case using a b by simp
qed

lemma find_initial_medoid_range:
  assumes "distances \<noteq> []"
  shows "0 \<le> find_initial_medoid distances \<and> find_initial_medoid distances < rows distances"
proof -
  obtain r rs where d: "distances = r # rs" using assms by (cases distances) auto
  show ?thesis
    using min_index_from_range [of 0 1 "map sum_list rs" "sum_list r"]
    by (simp add: find_initial_medoid_def minCoeff_def rows_def d)
qed

lemma fold_next_medoid_mem:
  "snd (fold (next_medoid_step distances c) xs s) \<in> insert (snd s) (set xs)"
proof (induction xs arbitrary: s)
  case Nil
  then show ?case by simp
next
  case (Cons x xs)
  show ?case using Cons.IH [of "next_medoid_step distances c x s"]
    by (auto simp: next_medoid_step_def split: if_splits)
qed

lemma find_next_medoid_mem:
  "find_next_medoid distances c = 0 \<or> find_next_medoid distances c \<in> set (nonselected c)"
  using fold_next_medoid_mem [of distances c "nonselected c" "(dbl_min, 0)"]
  by (simp add: find_next_medoid_def)

lemma pam_wf_range:
  "pam_wf n c \<Longrightarrow> x \<in> set (medoids c) \<union> set (nonselected c) \<Longrightarrow> 0 \<le> x \<and> x < int n"
  by (auto simp: pam_wf_def)

lemma add_medoid_wf:
  assumes "pam_wf n c" "0 \<le> m" "m < int n"
  shows "pam_wf n (add_medoid c m)"
proof -
  have "set ((classification c)[nat m := m]) \<subseteq> insert m (set (medoids c))"
    using assms(1) set_update_subset_insert [of "classification c" "nat m" m]
    by (auto simp: pam_wf_def)
  then show ?thesis
    using assms by (auto simp: pam_wf_def add_medoid_def assign_medoid_def std_set_simps)
qed

lemma add_medoid_self:
  assumes "pam_wf n c" "self_assigned c" "0 \<le> m" "m < int n"
  shows "self_assigned (add_medoid c m)"
  unfolding self_assigned_def
proof
  fix x assume x: "x \<in> set (medoids (add_medoid c m))"
  have len: "length (classification c) = n" using assms(1) by (simp add: pam_wf_def)
  show "classification (add_medoid c m) ! nat x = x"
  proof (cases "x = m")
    case True
    then show ?thesis using assms len by (simp add: add_medoid_def assign_medoid_def)
  next
    case False
    then have xm: "x \<in> set (medoids c)"
      using x by (simp add: add_medoid_def assign_medoid_def std_set_simps)
    then have "0 \<le> x" using pam_wf_range [OF assms(1), of x] by simp
    then have "nat x \<noteq> nat m" using False assms(3) by simp
    then show ?thesis
      using xm assms(2) by (simp add: add_medoid_def assign_medoid_def self_assigned_def)
  qed
qed


lemma reclassify_step_sets:
  "medoids (reclassify_step distances object medoid c) = medoids c"
  "nonselected (reclassify_step distances object medoid c) = nonselected c"
  by (simp_all add: reclassify_step_def assign_medoid_def Let_def)

lemma reclassify_step_wf:
  assumes "pam_wf n c" "object \<in> set (nonselected c)" "medoid \<in> set (medoids c)"
  shows "pam_wf n (reclassify_step distances object medoid c)"
proof -
  have "0 \<le> object \<and> object < int n"
    using pam_wf_range [OF assms(1), of object] assms(2) by simp
  then have "nat object < n" by linarith
  then have "nat object < length (classification c)"
    using assms(1) by (simp add: pam_wf_def)
  then have "classification c ! nat object \<in> set (medoids c)"
    using assms(1) nth_mem [of "nat object" "classification c"] by (auto simp: pam_wf_def)
  moreover have "set (classification c) \<subseteq> set (medoids c)"
    "set (second_closest_medoid c) \<subseteq> set (medoids c)"
    using assms(1) by (simp_all add: pam_wf_def)
  ultimately have
    "set ((classification c)[nat object := medoid]) \<subseteq> set (medoids c)"
    "set ((second_closest_medoid c)[nat object := classification c ! nat object])
       \<subseteq> set (medoids c)"
    "set ((second_closest_medoid c)[nat object := medoid]) \<subseteq> set (medoids c)"
    using assms(3) by (simp_all add: set_update_subsetI)
  then show ?thesis
    using assms(1)
    by (simp add: pam_wf_def reclassify_step_def assign_medoid_def Let_def)
qed

lemma reclassify_step_self:
  assumes "pam_wf n c" "self_assigned c" "object \<in> set (nonselected c)"
  shows "self_assigned (reclassify_step distances object medoid c)"
proof -
  have "nat object \<noteq> nat x" if "x \<in> set (medoids c)" for x
  proof -
    have "x \<noteq> object" using that assms(1,3) by (auto simp: pam_wf_def)
    moreover have "0 \<le> x" "0 \<le> object"
      using pam_wf_range [OF assms(1), of x] pam_wf_range [OF assms(1), of object] that assms(3)
      by simp_all
    ultimately show ?thesis by simp
  qed
  then show ?thesis
    using assms(2)
    by (auto simp: self_assigned_def reclassify_step_def assign_medoid_def Let_def)
qed

lemma reclassify_step_inv:
  assumes "pam_inv n M N c" "object \<in> set N" "medoid \<in> set M"
  shows "pam_inv n M N (reclassify_step distances object medoid c)"
  using assms reclassify_step_wf [of n c object medoid distances]
    reclassify_step_self [of n c object distances medoid]
  by (simp add: pam_inv_def reclassify_step_sets)

lemma reclassify_object_inv:
  assumes "pam_inv n M N (snd s)" "object \<in> set N"
  shows "pam_inv n M N (snd (reclassify_object distances object s))"
proof -
  have "pam_inv n M N (fold (reclassify_step distances object) M (snd s))"
    by (rule fold_invariant) (use assms in \<open>auto intro: reclassify_step_inv\<close>)
  moreover have "medoids (snd s) = M" using assms(1) by (simp add: pam_inv_def)
  ultimately show ?thesis by (simp add: reclassify_object_def Let_def)
qed

lemma reclassify_objects_inv:
  assumes "pam_wf n c" "self_assigned c"
  shows "pam_inv n (medoids c) (nonselected c) (snd (reclassify_objects distances c))"
proof -
  have "pam_inv n (medoids c) (nonselected c) (snd (0::real, c))"
    using assms by (simp add: pam_inv_def)
  then show ?thesis
    unfolding reclassify_objects_def
    by (rule fold_invariant
          [where P = "\<lambda>s. pam_inv n (medoids c) (nonselected c) (snd s)", rotated])
       (rule reclassify_object_inv)
qed

lemma swap_medoid_wf:
  assumes "pam_wf n c" "old_medoid \<in> set (medoids c)" "new_medoid \<in> set (nonselected c)"
  shows "pam_wf n (swap_medoid c old_medoid new_medoid)"
proof -
  have r: "0 \<le> old_medoid" "old_medoid < int n" "0 \<le> new_medoid" "new_medoid < int n"
    using pam_wf_range [OF assms(1), of old_medoid] pam_wf_range [OF assms(1), of new_medoid] assms
    by simp_all
  have "set ((classification c)[nat new_medoid := new_medoid]) \<subseteq> insert new_medoid (set (medoids c))"
    using assms(1) set_update_subset_insert [of "classification c" "nat new_medoid" new_medoid]
    by (auto simp: pam_wf_def)
  then show ?thesis
    using assms r
    by (auto simp: pam_wf_def swap_medoid_def add_medoid_def assign_medoid_def Let_def
          std_set_simps)
qed

lemma swap_medoid_self:
  assumes "pam_wf n c" "self_assigned c"
    "old_medoid \<in> set (medoids c)" "new_medoid \<in> set (nonselected c)"
  shows "self_assigned (swap_medoid c old_medoid new_medoid)"
  unfolding self_assigned_def
proof
  fix x assume x: "x \<in> set (medoids (swap_medoid c old_medoid new_medoid))"
  have len: "length (classification c) = n" using assms(1) by (simp add: pam_wf_def)
  have r: "0 \<le> new_medoid" "new_medoid < int n"
    using pam_wf_range [OF assms(1), of new_medoid] assms by simp_all
  have cl: "classification (swap_medoid c old_medoid new_medoid) =
      map (\<lambda>medoid. if medoid = old_medoid then new_medoid else medoid)
        ((classification c)[nat new_medoid := new_medoid])"
    by (simp add: swap_medoid_def add_medoid_def assign_medoid_def Let_def)
  have xs: "x = new_medoid \<or> (x \<in> set (medoids c) \<and> x \<noteq> old_medoid)"
    using x by (auto simp: swap_medoid_def add_medoid_def assign_medoid_def Let_def std_set_simps)
  show "classification (swap_medoid c old_medoid new_medoid) ! nat x = x"
  proof (cases "x = new_medoid")
    case True
    then show ?thesis using r len by (simp add: cl)
  next
    case False
    then have xm: "x \<in> set (medoids c)" "x \<noteq> old_medoid" using xs by auto
    then have xr: "0 \<le> x" "x < int n" using pam_wf_range [OF assms(1), of x] by simp_all
    then have "nat x \<noteq> nat new_medoid" using False r by simp
    moreover have "classification c ! nat x = x" using xm assms(2) by (simp add: self_assigned_def)
    ultimately show ?thesis using xr len xm by (simp add: cl)
  qed
qed

lemma best_swap_step_candidate:
  "swap_candidate A B s \<Longrightarrow> i \<in> A \<Longrightarrow> h \<in> B \<Longrightarrow>
   swap_candidate A B (best_swap_step distances c i h s)"
  by (simp add: swap_candidate_def best_swap_step_def)

lemma fold_best_swap_step_candidate:
  assumes "swap_candidate A (set hs) s" "i \<in> A"
  shows "swap_candidate A (set hs) (fold (best_swap_step distances c i) hs s)"
  by (rule fold_invariant [where P = "swap_candidate A (set hs)"])
     (use assms in \<open>auto intro: best_swap_step_candidate\<close>)

lemma best_swap_candidate:
  "swap_candidate (set (medoids c)) (set (nonselected c)) (best_swap distances c)"
proof -
  have "swap_candidate (set (medoids c)) (set (nonselected c)) (dbl_max, - 1, - 1)"
    by (simp add: swap_candidate_def)
  then show ?thesis
    unfolding best_swap_def
    by (rule fold_invariant
          [where P = "swap_candidate (set (medoids c)) (set (nonselected c))", rotated])
       (rule fold_best_swap_step_candidate)
qed

lemma best_swap_guard:
  assumes "0 \<le> fst (snd (best_swap distances c))"
  shows "fst (snd (best_swap distances c)) \<in> set (medoids c) \<and>
         snd (snd (best_swap distances c)) \<in> set (nonselected c)"
  using best_swap_candidate [of c distances] assms by (auto simp: swap_candidate_def)

lemma pam_point_inv:
  assumes "distances \<noteq> []" "pam_point distances c"
  shows "pam_wf (length distances) c \<and> self_assigned c"
  using assms(2)
proof (induction rule: pam_point.induct)
  case constructed
  show ?case
    using find_initial_medoid_range [OF assms(1)]
      pam_data_init_wf [of "find_initial_medoid distances" "length distances"]
      pam_data_init_self [of "find_initial_medoid distances" "length distances"]
    by (simp add: rows_def)
next
  case (added c)
  have "0 < length distances" using assms(1) by simp
  then have "0 \<le> find_next_medoid distances c \<and> find_next_medoid distances c < int (length distances)"
    using find_next_medoid_mem [of distances c] added.IH
      pam_wf_range [of "length distances" c "find_next_medoid distances c"]
    by auto
  then show ?case
    using added.IH
      add_medoid_wf [of "length distances" c "find_next_medoid distances c"]
      add_medoid_self [of "length distances" c "find_next_medoid distances c"]
    by simp
next
  case (reclassified c)
  then show ?case
    using reclassify_objects_inv [of "length distances" c distances] by (simp add: pam_inv_def)
next
  case (swapped c mc old_medoid new_medoid)
  have "old_medoid \<in> set (medoids c) \<and> new_medoid \<in> set (nonselected c)"
    using best_swap_guard [of distances c] swapped.hyps by simp
  then show ?case
    using swapped.IH
      swap_medoid_wf [of "length distances" c old_medoid new_medoid]
      swap_medoid_self [of "length distances" c old_medoid new_medoid]
    by simp
qed

lemma refine_step_point:
  assumes "pam_point distances c" "refine_step distances c = Some c'"
  shows "pam_point distances c'"
proof -
  obtain mc old_medoid new_medoid where b: "best_swap distances c = (mc, old_medoid, new_medoid)"
    by (cases "best_swap distances c") auto
  from assms(2) have g: "mc < 0" "0 \<le> old_medoid" "0 \<le> new_medoid"
    and c': "c' = snd (reclassify_objects distances (swap_medoid c old_medoid new_medoid))"
    by (auto simp: refine_step_def b Let_def split: if_splits)
  show ?thesis
    unfolding c' by (rule pam_point.reclassified, rule pam_point.swapped [OF assms(1) b g])
qed

lemma refine_invariant:
  assumes "refine distances c = Some c'" "P c"
    and step: "\<And>a b. P a \<Longrightarrow> refine_step distances a = Some b \<Longrightarrow> P b"
  shows "P c'"
proof -
  have "distances = distances \<longrightarrow> P c \<longrightarrow> P c'"
  proof (rule refine.raw_induct
      [where P = "\<lambda>D a y. D = distances \<longrightarrow> P a \<longrightarrow> P y", OF _ assms(1)])
    fix f :: "matrix \<Rightarrow> pam_data \<Rightarrow> pam_data option" and D a y
    assume IH: "\<And>D a y. f D a = Some y \<Longrightarrow> D = distances \<longrightarrow> P a \<longrightarrow> P y"
      and eq: "(case refine_step D a of None \<Rightarrow> Some a | Some c \<Rightarrow> f D c) = Some y"
    show "D = distances \<longrightarrow> P a \<longrightarrow> P y"
    proof (cases "refine_step D a")
      case None
      then show ?thesis using eq by simp
    next
      case (Some b)
      then have "f D b = Some y" using eq by simp
      then show ?thesis using IH [of D b y] step [of a b] Some by auto
    qed
  qed
  then show ?thesis using assms(2) by simp
qed

lemma refine_terminal:
  assumes "refine distances c = Some c'"
  shows "refine_step distances c' = None"
proof (rule refine.raw_induct
    [where P = "\<lambda>D a y. refine_step D y = None", OF _ assms])
  fix f :: "matrix \<Rightarrow> pam_data \<Rightarrow> pam_data option" and D a y
  assume IH: "\<And>D a y. f D a = Some y \<Longrightarrow> refine_step D y = None"
    and eq: "(case refine_step D a of None \<Rightarrow> Some a | Some c \<Rightarrow> f D c) = Some y"
  show "refine_step D y = None"
  proof (cases "refine_step D a")
    case None
    then show ?thesis using eq by simp
  next
    case (Some b)
    then have "f D b = Some y" using eq by simp
    then show ?thesis by (rule IH)
  qed
qed

lemma build_loop_point:
  "pam_point distances c \<Longrightarrow> pam_point distances (build_loop j distances c)"
  by (induction j arbitrary: c) (auto intro: pam_point.added pam_point.reclassified)

lemma build_point: "pam_point distances (build k distances)"
  unfolding build_def by (rule build_loop_point) (rule pam_point.constructed)

lemma refine_point:
  assumes "pam_point distances c" "refine distances c = Some c'"
  shows "pam_point distances c'"
  by (rule refine_invariant [OF assms(2), where P = "pam_point distances"])
     (use assms(1) in \<open>auto intro: refine_step_point\<close>)

section \<open>The search for the cheapest swap, and the defaults of the build search\<close>

lemma refine_stop: "refine_step distances c = None \<Longrightarrow> refine distances c = Some c"
  by (subst refine.simps) simp

lemma best_swap_step_le: "fst (best_swap_step distances c i h s) \<le> fst s"
  by (simp add: best_swap_step_def)

lemma fold_best_swap_step_le_init:
  "fst (fold (best_swap_step distances c i) hs s) \<le> fst s"
proof (induction hs arbitrary: s)
  case Nil
  then show ?case by simp
next
  case (Cons h hs)
  show ?case
    using Cons.IH [of "best_swap_step distances c i h s"] best_swap_step_le [of distances c i h s]
    by simp
qed

lemma fold_best_swap_step_le_cost:
  "h \<in> set hs \<Longrightarrow>
   fst (fold (best_swap_step distances c i) hs s) \<le> calculate_swap_cost distances i h c"
proof (induction hs arbitrary: s)
  case Nil
  then show ?case by simp
next
  case (Cons x hs)
  show ?case
  proof (cases "h = x")
    case True
    have "fst (best_swap_step distances c i x s) \<le> calculate_swap_cost distances i x c"
      by (simp add: best_swap_step_def)
    then show ?thesis
      using fold_best_swap_step_le_init [of distances c i hs "best_swap_step distances c i x s"] True
      by simp
  next
    case False
    then show ?thesis using Cons by simp
  qed
qed

lemma fold_best_swap_le_init:
  "fst (fold (\<lambda>i. fold (best_swap_step distances c i) hs) ms s) \<le> fst s"
proof (induction ms arbitrary: s)
  case Nil
  then show ?case by simp
next
  case (Cons m ms)
  show ?case
    using Cons.IH [of "fold (best_swap_step distances c m) hs s"]
      fold_best_swap_step_le_init [of distances c m hs s]
    by simp
qed

lemma fold_best_swap_le_cost:
  "i \<in> set ms \<Longrightarrow> h \<in> set hs \<Longrightarrow>
   fst (fold (\<lambda>i. fold (best_swap_step distances c i) hs) ms s)
     \<le> calculate_swap_cost distances i h c"
proof (induction ms arbitrary: s)
  case Nil
  then show ?case by simp
next
  case (Cons m ms)
  show ?case
  proof (cases "i = m")
    case True
    then show ?thesis
      using fold_best_swap_le_init [of distances c hs ms "fold (best_swap_step distances c m) hs s"]
        fold_best_swap_step_le_cost [OF Cons.prems(2), of distances c m s]
      by simp
  next
    case False
    then show ?thesis using Cons by simp
  qed
qed

lemma best_swap_le_cost:
  "i \<in> set (medoids c) \<Longrightarrow> h \<in> set (nonselected c) \<Longrightarrow>
   fst (best_swap distances c) \<le> calculate_swap_cost distances i h c"
  unfolding best_swap_def by (rule fold_best_swap_le_cost)

lemma dbl_max_pos: "0 < dbl_max"
  by (simp add: dbl_max_def)

lemma dbl_min_pos: "0 < dbl_min"
  by (simp add: dbl_min_def)

lemma reclassify_object_sets:
  "medoids (snd (reclassify_object distances object s)) = medoids (snd s) \<and>
   nonselected (snd (reclassify_object distances object s)) = nonselected (snd s)"
proof -
  have "medoids (fold (reclassify_step distances object) ms c) = medoids c \<and>
        nonselected (fold (reclassify_step distances object) ms c) = nonselected c" for ms c
    by (induction ms arbitrary: c) (simp_all add: reclassify_step_sets)
  then show ?thesis by (simp add: reclassify_object_def Let_def)
qed

lemma reclassify_objects_sets:
  "medoids (snd (reclassify_objects distances c)) = medoids c \<and>
   nonselected (snd (reclassify_objects distances c)) = nonselected c"
proof -
  have "medoids (snd (fold (reclassify_object distances) os s)) = medoids (snd s) \<and>
        nonselected (snd (fold (reclassify_object distances) os s)) = nonselected (snd s)" for os s
    by (induction os arbitrary: s) (simp_all add: reclassify_object_sets)
  then show ?thesis by (simp add: reclassify_objects_def)
qed

lemma swap_medoid_sets:
  "set (medoids (swap_medoid c old_medoid new_medoid)) =
     insert new_medoid (set (medoids c) - {old_medoid})"
  "set (nonselected (swap_medoid c old_medoid new_medoid)) =
     insert old_medoid (set (nonselected c)) - {new_medoid}"
  by (simp_all add: swap_medoid_def add_medoid_def assign_medoid_def Let_def std_set_simps)

lemma refine_step_nonneg:
  assumes "nonneg_indices c" "refine_step distances c = Some c'"
  shows "nonneg_indices c'"
proof -
  let ?s = "best_swap distances c"
  from assms(2) have g: "0 \<le> fst (snd ?s)" "0 \<le> snd (snd ?s)"
    and c': "c' = snd (reclassify_objects distances (swap_medoid c (fst (snd ?s)) (snd (snd ?s))))"
    by (auto simp: refine_step_def Let_def split: if_splits)
  show ?thesis
    using assms(1) g
    by (auto simp: nonneg_indices_def c' reclassify_objects_sets swap_medoid_sets list_all_iff)
qed

lemma refine_step_None_costs:
  assumes "refine_step distances c = None" "nonneg_indices c"
    "i \<in> set (medoids c)" "h \<in> set (nonselected c)"
  shows "0 \<le> calculate_swap_cost distances i h c"
proof -
  let ?s = "best_swap distances c"
  have guard: "\<not> (fst ?s < 0 \<and> 0 \<le> fst (snd ?s) \<and> 0 \<le> snd (snd ?s))"
    using assms(1) by (auto simp: refine_step_def Let_def split: if_splits)
  have "0 \<le> fst ?s"
  proof (cases "?s = (dbl_max, - 1, - 1)")
    case True
    then show ?thesis using dbl_max_pos by simp
  next
    case False
    then have "fst (snd ?s) \<in> set (medoids c) \<and> snd (snd ?s) \<in> set (nonselected c)"
      using best_swap_candidate [of c distances] by (simp add: swap_candidate_def)
    then have "0 \<le> fst (snd ?s) \<and> 0 \<le> snd (snd ?s)"
      using assms(2) by (auto simp: nonneg_indices_def list_all_iff)
    then show ?thesis using guard by simp
  qed
  then show ?thesis using best_swap_le_cost [OF assms(3,4), of distances] by simp
qed

lemma fold_next_medoid_step_id:
  "\<forall>i\<in>set xs. gain distances c i \<le> fst s \<Longrightarrow> fold (next_medoid_step distances c) xs s = s"
  by (induction xs) (simp_all add: next_medoid_step_def)

lemma find_next_medoid_no_gain:
  assumes "\<forall>i\<in>set (nonselected c). gain distances c i \<le> dbl_min"
  shows "find_next_medoid distances c = 0"
  using fold_next_medoid_step_id [of "nonselected c" distances c "(dbl_min, 0)"] assms
  by (simp add: find_next_medoid_def)

lemma gain_last_candidate: "nonselected c = [j] \<Longrightarrow> gain distances c j = 0"
  by (simp add: gain_def set_erase_def)

lemma add_medoid_present:
  assumes "m \<in> set (medoids c)" "m \<notin> set (nonselected c)"
  shows "medoids (add_medoid c m) = medoids c \<and> nonselected (add_medoid c m) = nonselected c"
  using assms by (simp add: add_medoid_def assign_medoid_def set_insert_def set_erase_def)

lemma partition_rejects:
  "(k < 2 \<longrightarrow> partition_around_medoids cdm k matrix = Some (Inl LessThanTwoPartitions)) \<and>
   (2 \<le> k \<and> rows matrix < k \<longrightarrow>
      partition_around_medoids cdm k matrix = Some (Inl NotEnoughRows)) \<and>
   ((\<exists>e. partition_around_medoids cdm k matrix = Some (Inl e)) \<longleftrightarrow> (k < 2 \<or> rows matrix < k)) \<and>
   (k < 2 \<or> rows matrix < k \<longrightarrow>
      partition_around_medoids cdm k matrix = partition_around_medoids cdm' k matrix)"
  by (auto simp: partition_around_medoids_def Let_def split: option.splits)

lemma partition_result:
  assumes "partition_around_medoids cdm k matrix = Some (Inr r)"
  obtains c where "2 \<le> k" "k \<le> rows matrix"
    "refine (cdm matrix) (build k (cdm matrix)) = Some c"
    "pam_result.medoids r = medoids c" "pam_result.classification r = classification c"
  using assms by (auto simp: partition_around_medoids_def Let_def split: if_splits option.splits)

lemma fold_gain_sum_list:
  "fold (\<lambda>j (g::real). g + f j) xs a = a + sum_list (map f xs)"
  by (induction xs arbitrary: a) simp_all

lemma sum_list_all_zero:
  "(\<And>x. x \<in> set xs \<Longrightarrow> f x = (0::real)) \<Longrightarrow> sum_list (map f xs) = 0"
  by (induction xs) simp_all

lemma gain_equal_distances:
  assumes wf: "pam_wf n c" and eq: "all_equal_distances n distances d"
    and i: "i \<in> set (nonselected c)"
  shows "gain distances c i = 0"
proof -
  have d: "coeff distances a b = d"
    if "0 \<le> a" "a < int n" "0 \<le> b" "b < int n" "a \<noteq> b" for a b
  proof -
    have "a \<in> {0 .. int n - 1}" "b \<in> {0 .. int n - 1}" using that by auto
    then have "a = b \<or> coeff distances a b = d"
      using eq by (simp add: all_equal_distances_def list_all_iff)
    then show ?thesis using that(5) by simp
  qed
  have ri: "0 \<le> i \<and> i < int n" using pam_wf_range [OF wf, of i] i by simp
  have "max (coeff distances j (classification c ! nat j) - coeff distances j i) 0 = 0"
    if j: "j \<in> set (set_erase i (nonselected c))" for j
  proof -
    have jn: "j \<in> set (nonselected c)" "j \<noteq> i" using j by (simp_all add: set_set_erase)
    have rj: "0 \<le> j \<and> j < int n" using pam_wf_range [OF wf, of j] jn by simp
    then have "nat j < length (classification c)" using wf by (simp add: pam_wf_def nat_less_iff)
    then have m: "classification c ! nat j \<in> set (medoids c)"
      using wf nth_mem [of "nat j" "classification c"] by (auto simp: pam_wf_def)
    then have rm: "0 \<le> classification c ! nat j \<and> classification c ! nat j < int n"
      using pam_wf_range [OF wf, of "classification c ! nat j"] by simp
    have "classification c ! nat j \<noteq> j" using m jn(1) wf by (auto simp: pam_wf_def)
    then have "coeff distances j (classification c ! nat j) = d" using d rj rm by simp
    moreover have "coeff distances j i = d" using d rj ri jn(2) by simp
    ultimately show ?thesis by simp
  qed
  then have "sum_list (map (\<lambda>j. max (coeff distances j (classification c ! nat j)
      - coeff distances j i) 0) (set_erase i (nonselected c))) = 0"
    by (rule sum_list_all_zero)
  then show ?thesis by (simp add: gain_def fold_gain_sum_list)
qed

text \<open>
  When some candidate has a gain above \<open>dbl_min\<close>, the search returns the first
  candidate (in ascending order) of maximal gain.
\<close>

lemma next_medoid_step_pair:
  "next_medoid_step distances c x (g0, m0) =
     (if gain distances c x > g0 then (gain distances c x, x) else (g0, m0))"
  by (simp add: next_medoid_step_def)

lemma fold_next_medoid_step_max:
  assumes "fold (next_medoid_step distances c) xs (g0, m0) = (g, m)"
  shows "((g, m) = (g0, m0) \<and> (\<forall>i\<in>set xs. gain distances c i \<le> g0)) \<or>
         (g0 < g \<and> find (\<lambda>i. gain distances c i = g) xs = Some m \<and>
          (\<forall>i\<in>set xs. gain distances c i \<le> g))"
  using assms
proof (induction xs arbitrary: g0 m0)
  case Nil
  then show ?case by simp
next
  case (Cons x xs)
  show ?case
  proof (cases "gain distances c x > g0")
    case True
    then have "fold (next_medoid_step distances c) xs (gain distances c x, x) = (g, m)"
      using Cons.prems by (simp add: next_medoid_step_pair)
    from Cons.IH [OF this] True show ?thesis by auto
  next
    case False
    then have "fold (next_medoid_step distances c) xs (g0, m0) = (g, m)"
      using Cons.prems by (simp add: next_medoid_step_pair)
    from Cons.IH [OF this] False show ?thesis by auto
  qed
qed

lemma find_next_medoid_argmax:
  assumes "\<exists>i\<in>set (nonselected c). dbl_min < gain distances c i"
  shows "find (\<lambda>i. gain distances c i = gain distances c (find_next_medoid distances c))
           (nonselected c) = Some (find_next_medoid distances c) \<and>
         (\<forall>i\<in>set (nonselected c).
            gain distances c i \<le> gain distances c (find_next_medoid distances c))"
proof -
  obtain g m where f:
    "fold (next_medoid_step distances c) (nonselected c) (dbl_min, 0) = (g, m)"
    by (cases "fold (next_medoid_step distances c) (nonselected c) (dbl_min, 0)") auto
  then have m: "find_next_medoid distances c = m" by (simp add: find_next_medoid_def)
  from fold_next_medoid_step_max [OF f] assms
  have r: "find (\<lambda>i. gain distances c i = g) (nonselected c) = Some m"
    "\<forall>i\<in>set (nonselected c). gain distances c i \<le> g"
    by (auto simp: not_less [symmetric])
  from r(1) have "gain distances c m = g" by (auto simp: find_Some_iff)
  then show ?thesis using r m by simp
qed

section \<open>The swap cost is the sum of the contributions\<close>

lemma fold_add_sum_list:
  "fold (\<lambda>j (t::real). t + f j) xs a = a + sum_list (map f xs)"
  by (induction xs arbitrary: a) simp_all

lemma swap_contribution_code_eq:
  "swap_contribution_code distances c i h j = swap_contribution distances c i h j"
  by (simp add: swap_contribution_code_def swap_contribution_def Let_def)

section \<open>Runs on concrete inputs\<close>

lemmas pam_eval = build_def rows_def find_initial_medoid_def minCoeff_def pam_data_init_def
  set_insert_def set_erase_def add_medoid_def assign_medoid_def find_next_medoid_def
  next_medoid_step_def gain_def coeff_def reclassify_objects_def reclassify_object_def
  reclassify_step_def dbl_min_def dbl_max_def swap_medoid_def best_swap_def best_swap_step_def
  calculate_swap_cost_def swap_contribution_code_def refine_step_def Let_def
  line_distances_def six_points_def six_points_a_def six_points_b_def
  three_points_def three_points_start_def three_points_second_def
  middle_first_def middle_first_start_def two_pairs_def two_pairs_built_def
  five_points_def five_points_built_def five_points_refined_def
  numeral_eq_Suc upto.simps

lemma refine_cycle_diverges:
  assumes ab: "refine_step distances a = Some b" and ba: "refine_step distances b = Some a"
  shows "refine distances a = None"
proof -
  have "\<not> (distances = distances \<and> (a = a \<or> a = b))" if "refine distances a = Some y" for y
  proof (rule refine.raw_induct
      [where P = "\<lambda>D x y. \<not> (D = distances \<and> (x = a \<or> x = b))", OF _ that])
    fix f :: "matrix \<Rightarrow> pam_data \<Rightarrow> pam_data option" and D x y
    assume IH: "\<And>D x y. f D x = Some y \<Longrightarrow> \<not> (D = distances \<and> (x = a \<or> x = b))"
      and eq: "(case refine_step D x of None \<Rightarrow> Some x | Some c \<Rightarrow> f D c) = Some y"
    show "\<not> (D = distances \<and> (x = a \<or> x = b))"
    proof
      assume h: "D = distances \<and> (x = a \<or> x = b)"
      then consider "x = a" | "x = b" by auto
      then show False
      proof cases
        case 1
        then have "f distances b = Some y" using eq h ab by simp
        then show False using IH [of distances b y] by simp
      next
        case 2
        then have "f distances a = Some y" using eq h ba by simp
        then show False using IH [of distances a y] by simp
      qed
    qed
  qed
  then show ?thesis by (cases "refine distances a") auto
qed

lemma six_points_valid: "valid_distances (line_distances six_points)"
  by (simp add: valid_distances_def line_distances_def six_points_def)

lemma six_points_build: "build 2 (line_distances six_points) = six_points_a"
  by (simp add: pam_eval)

lemma six_points_step_a:
  "refine_step (line_distances six_points) six_points_a = Some six_points_b"
  by (simp add: pam_eval)

lemma six_points_step_b:
  "refine_step (line_distances six_points) six_points_b = Some six_points_a"
  by (simp add: pam_eval)

lemma six_points_refine: "refine (line_distances six_points) six_points_a = None"
  by (rule refine_cycle_diverges [OF six_points_step_a six_points_step_b])

lemma middle_first_valid: "valid_distances (line_distances middle_first)"
  by (simp add: valid_distances_def line_distances_def middle_first_def)

lemma middle_first_init:
  "pam_data_init (rows (line_distances middle_first))
     (find_initial_medoid (line_distances middle_first)) = middle_first_start"
  by (simp add: pam_eval)

lemma middle_first_build: "build 2 (line_distances middle_first) = middle_first_start"
  by (simp add: pam_eval)

lemma middle_first_stop: "refine_step (line_distances middle_first) middle_first_start = None"
  by (simp add: pam_eval)

lemma three_points_valid: "valid_distances (line_distances three_points)"
  by (simp add: valid_distances_def line_distances_def three_points_def)

lemma three_points_init:
  "pam_data_init (rows (line_distances three_points))
     (find_initial_medoid (line_distances three_points)) = three_points_start"
  by (simp add: pam_eval)

lemma three_points_build2: "build 2 (line_distances three_points) = three_points_second"
  by (simp add: pam_eval)

lemma three_points_build3: "build 3 (line_distances three_points) = three_points_second"
  by (simp add: pam_eval)

lemma three_points_stop: "refine_step (line_distances three_points) three_points_second = None"
  by (simp add: pam_eval)

lemma two_pairs_build: "build 2 (line_distances two_pairs) = two_pairs_built"
  by (simp add: pam_eval)

lemma two_pairs_stop: "refine_step (line_distances two_pairs) two_pairs_built = None"
  by (simp add: pam_eval)

lemma two_pairs_result:
  "partition_around_medoids line_distances 2 two_pairs =
     Some (Inr \<lparr> pam_result.medoids = [1, 2], pam_result.classification = [1, 1, 2, 2] \<rparr>)"
  by (simp add: partition_around_medoids_def rows_def two_pairs_build
        refine_stop [OF two_pairs_stop])
     (simp add: two_pairs_def two_pairs_built_def)

lemma five_points_step:
  "refine_step (line_distances five_points) five_points_built = Some five_points_refined"
  by (simp add: pam_eval)

lemma five_points_stop:
  "refine_step (line_distances five_points) five_points_refined = None"
  by (simp add: pam_eval)

lemma five_points_refine:
  "refine (line_distances five_points) five_points_built = Some five_points_refined"
  by (subst refine.simps) (simp add: five_points_step refine_stop [OF five_points_stop])

text \<open>
  Five objects at distance 1 from each other and \<open>k = 2\<close>: every gain is 0, and Build
  ends with the single medoid 0.
\<close>

lemma equidistant_build:
  "build 2 equidistant =
     \<lparr> medoids = [0], nonselected = [1, 2, 3, 4],
       classification = [0, 0, 0, 0, 0], second_closest_medoid = [0, 0, 0, 0, 0] \<rparr>"
  by (simp add: pam_eval equidistant_def)

section \<open>The results of a run\<close>

lemma distances_nonempty:
  assumes "rows distances = rows matrix" "2 \<le> k" "k \<le> rows matrix"
  shows "distances \<noteq> []"
  using assms by (auto simp: rows_def)

lemma partition_point:
  assumes "partition_around_medoids cdm k matrix = Some (Inr r)"
  obtains c where "2 \<le> k" "k \<le> rows matrix" "pam_point (cdm matrix) c"
    "pam_result.medoids r = medoids c" "pam_result.classification r = classification c"
proof -
  obtain c where c: "2 \<le> k" "k \<le> rows matrix"
    "refine (cdm matrix) (build k (cdm matrix)) = Some c"
    "pam_result.medoids r = medoids c" "pam_result.classification r = classification c"
    using assms by (rule partition_result)
  have "pam_point (cdm matrix) c"
    by (rule refine_point [OF build_point c(3)])
  then show ?thesis using c that by blast
qed

text \<open>The half of claim C1 that the code keeps: the medoids of a result are objects.\<close>

lemma result_medoids_in_range:
  assumes "rows (cdm matrix) = rows matrix"
    "partition_around_medoids cdm k matrix = Some (Inr r)"
  shows "\<forall>m\<in>set (pam_result.medoids r). 0 \<le> m \<and> m < rows matrix"
proof -
  obtain c where c: "2 \<le> k" "k \<le> rows matrix" "pam_point (cdm matrix) c"
    "pam_result.medoids r = medoids c"
    using assms(2) by (rule partition_point)
  have "cdm matrix \<noteq> []"
    using assms(1) c(1,2) by (rule distances_nonempty)
  then have "pam_wf (length (cdm matrix)) c"
    using pam_point_inv [OF _ c(3)] by simp
  then show ?thesis
    using pam_wf_range [of "length (cdm matrix)" c] assms(1) c(4) by (auto simp: rows_def)
qed

lemma partition_rejects_examples:
  "partition_around_medoids line_distances 1 six_points = Some (Inl LessThanTwoPartitions) \<and>
   partition_around_medoids line_distances 4 three_points = Some (Inl NotEnoughRows)"
  using partition_rejects [where k = 1 and cdm = line_distances and matrix = six_points]
    partition_rejects [where k = 4 and cdm = line_distances and matrix = three_points]
  by (simp add: rows_def three_points_def)

section \<open>The claims\<close>

text \<open>
  Claim C1: for every valid input the result has exactly \<open>k\<close> medoids, all of them in
  \<open>{0..n-1}\<close>. The code does not keep the first half. For the three points \<open>1, 0, 2\<close> of
  the line and \<open>k = 2\<close> the initial medoid is object 0 (the point in the middle), both
  remaining candidates have gain 0, which is not above \<open>dbl_min\<close>, so
  \<open>find_next_medoid\<close> answers its default 0, \<open>add_medoid\<close> changes nothing, and the
  result has one medoid.
\<close>

theorem build_fewer_than_k_medoids:
  "valid_distances (line_distances middle_first) \<and> rows middle_first = 3 \<and>
   partition_around_medoids line_distances 2 middle_first =
     Some (Inr \<lparr> pam_result.medoids = [0], pam_result.classification = [0, 0, 0] \<rparr>)"
proof -
  have "partition_around_medoids line_distances 2 middle_first =
     Some (Inr \<lparr> pam_result.medoids = [0], pam_result.classification = [0, 0, 0] \<rparr>)"
    by (simp add: partition_around_medoids_def rows_def middle_first_build
          refine_stop [OF middle_first_stop])
       (simp add: middle_first_def middle_first_start_def)
  then show ?thesis
    using middle_first_valid by (simp add: rows_def middle_first_def)
qed

text \<open>
  Claim C2: for every valid input Build and Refine terminate. The loop of \<open>refine\<close> does
  not: for the six points \<open>0, 1, 2, 3, 5, 6\<close> of the line and \<open>k = 2\<close>, Build ends with
  the medoids 2 and 4; the cheapest swap there has cost \<open>-1\<close> and replaces medoid 2 by
  object 1; in the state reached the cheapest swap has cost \<open>-1\<close> again and replaces
  medoid 1 by object 2, which gives the first state back. The loop alternates between
  the two states for ever.
\<close>

theorem refine_alternates_forever:
  "valid_distances (line_distances six_points) \<and>
   build 2 (line_distances six_points) = six_points_a \<and>
   refine_step (line_distances six_points) six_points_a = Some six_points_b \<and>
   refine_step (line_distances six_points) six_points_b = Some six_points_a \<and>
   refine (line_distances six_points) (build 2 (line_distances six_points)) = None"
  using six_points_valid six_points_build six_points_step_a six_points_step_b six_points_refine
  by simp

text \<open>
  Claim C3: \<open>calculate_swap_cost\<close> is the sum, over the non-selected objects \<open>j\<close> other
  than \<open>h\<close>, of the contribution defined by the four cases. The sum is taken along the
  set in ascending order, and, the set having no duplicates, it is the sum over the set.
\<close>

theorem calculate_swap_cost_sum:
  "calculate_swap_cost distances i h c =
     (\<Sum>j\<leftarrow>set_erase h (nonselected c). swap_contribution distances c i h j) \<and>
   (distinct (nonselected c) \<longrightarrow>
     calculate_swap_cost distances i h c =
       (\<Sum>j\<in>set (nonselected c) - {h}. swap_contribution distances c i h j))"
proof -
  have a: "calculate_swap_cost distances i h c =
     (\<Sum>j\<leftarrow>set_erase h (nonselected c). swap_contribution distances c i h j)"
    by (simp add: calculate_swap_cost_def fold_add_sum_list swap_contribution_code_eq)
  have "(\<Sum>j\<leftarrow>set_erase h (nonselected c). swap_contribution distances c i h j) =
      (\<Sum>j\<in>set (nonselected c) - {h}. swap_contribution distances c i h j)"
    if "distinct (nonselected c)"
    using sum_list_distinct_conv_sum_set [OF distinct_set_erase [OF that, of h],
        of "swap_contribution distances c i h"]
    by (simp add: set_set_erase)
  then show ?thesis using a by simp
qed

theorem calculate_swap_cost_sum_witness:
  "distinct (nonselected two_pairs_built) \<and>
   calculate_swap_cost (line_distances two_pairs) 1 0 two_pairs_built =
     swap_contribution (line_distances two_pairs) two_pairs_built 1 0 3"
  using calculate_swap_cost_sum [of "line_distances two_pairs" 1 0 two_pairs_built]
  by (simp add: two_pairs_built_def)

text \<open>
  Claim C4: the call raises exactly when \<open>k < 2\<close> or \<open>rows(matrix) < k\<close>, before any
  distance is computed, and returns a result for every other input. The rejection is as
  claimed (\<open>partition_rejects\<close>: the error is raised exactly then, and whatever the
  distance provider is). The last part fails on the six points of claim C2 with
  \<open>k = 2\<close>, a valid input: the call neither raises nor returns.
\<close>

theorem partition_does_not_return:
  "2 \<le> rows six_points \<and> valid_distances (line_distances six_points) \<and>
   partition_around_medoids line_distances 2 six_points = None"
proof -
  have "partition_around_medoids line_distances 2 six_points = None"
    by (simp add: partition_around_medoids_def rows_def six_points_build six_points_refine)
       (simp add: six_points_def)
  then show ?thesis using six_points_valid by (simp add: rows_def six_points_def)
qed

text \<open>
  Claim C5: in every Build iteration the added medoid is the non-selected candidate of
  maximal gain, the first one among equals. In the first iteration on the points
  \<open>1, 0, 2\<close> the candidates are the objects 1 and 2, both of gain 0, and the medoid
  added is object 0, the current medoid, which is no candidate. (When some candidate has a
  gain above \<open>dbl_min\<close> the search does return the first candidate of maximal gain:
  \<open>find_next_medoid_argmax\<close>.)
\<close>

theorem find_next_medoid_not_a_candidate:
  "pam_data_init (rows (line_distances middle_first))
     (find_initial_medoid (line_distances middle_first)) = middle_first_start \<and>
   medoids middle_first_start = [0] \<and> nonselected middle_first_start = [1, 2] \<and>
   gain (line_distances middle_first) middle_first_start 1 = 0 \<and>
   gain (line_distances middle_first) middle_first_start 2 = 0 \<and>
   find_next_medoid (line_distances middle_first) middle_first_start = 0"
  using middle_first_init by (simp add: pam_eval)

text \<open>
  Claim C6: when \<open>k\<close> equals \<open>n\<close> every object is its own medoid. For the three points
  \<open>0, 1, 3\<close> and \<open>k = 3\<close> the result has the two medoids 0 and 1, and object 2 is
  classified to medoid 1: in the second Build iteration the only candidate, object 2,
  has gain 0 and the default 0 is added again.
\<close>

theorem k_equals_n_result:
  "rows three_points = 3 \<and> valid_distances (line_distances three_points) \<and>
   partition_around_medoids line_distances 3 three_points =
     Some (Inr \<lparr> pam_result.medoids = [0, 1], pam_result.classification = [0, 1, 1] \<rparr>)"
proof -
  have "partition_around_medoids line_distances 3 three_points =
     Some (Inr \<lparr> pam_result.medoids = [0, 1], pam_result.classification = [0, 1, 1] \<rparr>)"
    by (simp add: partition_around_medoids_def rows_def three_points_build3
          refine_stop [OF three_points_stop])
       (simp add: three_points_def three_points_second_def)
  then show ?thesis
    using three_points_valid by (simp add: rows_def three_points_def)
qed

text \<open>
  Claim C7: Refine is a fixed point. When \<open>refine\<close> returns a state, the loop body
  performs no swap in that state, a second \<open>refine\<close> returns it unchanged, and (the
  indices of a state being non-negative) no swap of a medoid for a non-selected object
  has a negative cost there.
\<close>

theorem refine_fixed_point:
  assumes "refine distances c = Some c'"
  shows "refine_step distances c' = None \<and> refine distances c' = Some c' \<and>
    (nonneg_indices c \<longrightarrow>
      (\<forall>i\<in>set (medoids c'). \<forall>h\<in>set (nonselected c').
         0 \<le> calculate_swap_cost distances i h c'))"
proof -
  have t: "refine_step distances c' = None" by (rule refine_terminal [OF assms])
  have "nonneg_indices c'" if "nonneg_indices c"
    using assms that
    by (rule refine_invariant [where P = nonneg_indices]) (rule refine_step_nonneg)
  then show ?thesis
    using t refine_stop [OF t] refine_step_None_costs [OF t] by blast
qed

theorem refine_fixed_point_witness:
  "refine (line_distances five_points) five_points_built = Some five_points_refined \<and>
   nonneg_indices five_points_built \<and>
   refine_step (line_distances five_points) five_points_refined = None \<and>
   refine (line_distances five_points) five_points_refined = Some five_points_refined \<and>
   0 \<le> calculate_swap_cost (line_distances five_points) 2 0 five_points_refined"
proof -
  have n: "nonneg_indices five_points_built"
    by (simp add: nonneg_indices_def five_points_built_def)
  have m: "2 \<in> set (medoids five_points_refined)" "0 \<in> set (nonselected five_points_refined)"
    by (simp_all add: five_points_refined_def)
  show ?thesis
    using refine_fixed_point [OF five_points_refine] five_points_refine n m by blast
qed

text \<open>
  Claim C8: at every point after the initialisation of the state (after the constructor,
  after each \<open>add_medoid\<close>, each \<open>swap_medoid\<close> and each reclassification) and in the
  result, every medoid is classified to itself.
\<close>

theorem medoids_classified_to_themselves:
  assumes "rows (cdm matrix) = rows matrix" "2 \<le> k" "k \<le> rows matrix"
  shows "(\<forall>c. pam_point (cdm matrix) c \<longrightarrow>
            (\<forall>m\<in>set (medoids c). classification c ! nat m = m)) \<and>
         (\<forall>r. partition_around_medoids cdm k matrix = Some (Inr r) \<longrightarrow>
            (\<forall>m\<in>set (pam_result.medoids r). pam_result.classification r ! nat m = m))"
proof -
  have ne: "cdm matrix \<noteq> []" using assms by (rule distances_nonempty)
  have a: "\<forall>m\<in>set (medoids c). classification c ! nat m = m"
    if "pam_point (cdm matrix) c" for c
    using pam_point_inv [OF ne that] by (simp add: self_assigned_def)
  have "\<forall>m\<in>set (pam_result.medoids r). pam_result.classification r ! nat m = m"
    if res: "partition_around_medoids cdm k matrix = Some (Inr r)" for r
  proof -
    obtain c where "2 \<le> k" "k \<le> rows matrix" "pam_point (cdm matrix) c"
      "pam_result.medoids r = medoids c" "pam_result.classification r = classification c"
      using res by (rule partition_point)
    then show ?thesis using a [of c] by simp
  qed
  then show ?thesis using a by blast
qed

theorem medoids_classified_to_themselves_witness:
  "rows (line_distances two_pairs) = rows two_pairs \<and> 2 \<le> rows two_pairs \<and>
   pam_point (line_distances two_pairs) two_pairs_built \<and>
   classification two_pairs_built ! nat 1 = 1 \<and>
   classification two_pairs_built ! nat 2 = 2 \<and>
   partition_around_medoids line_distances 2 two_pairs =
     Some (Inr \<lparr> pam_result.medoids = [1, 2], pam_result.classification = [1, 1, 2, 2] \<rparr>)"
proof -
  have h: "rows (line_distances two_pairs) = rows two_pairs" "(2::int) \<le> 2"
    "2 \<le> rows two_pairs"
    by (simp_all add: rows_def line_distances_def two_pairs_def)
  have p: "pam_point (line_distances two_pairs) two_pairs_built"
    using build_point [of "line_distances two_pairs" 2] by (simp add: two_pairs_build)
  have m: "1 \<in> set (medoids two_pairs_built)" "2 \<in> set (medoids two_pairs_built)"
    by (simp_all add: two_pairs_built_def)
  show ?thesis
    using medoids_classified_to_themselves
        [where cdm = line_distances and matrix = two_pairs and k = 2] h p m two_pairs_result
    by blast
qed

text \<open>
  Claim C9: in the result every object of \<open>{0..n-1}\<close> is classified to a member of the
  medoid set, and the classification has one entry for each object. The same holds in
  every state the run goes through.
\<close>

theorem classification_in_medoids:
  assumes "rows (cdm matrix) = rows matrix" "2 \<le> k" "k \<le> rows matrix"
  shows "(\<forall>c. pam_point (cdm matrix) c \<longrightarrow>
            length (classification c) = nat (rows matrix) \<and>
            (\<forall>object. 0 \<le> object \<and> object < rows matrix \<longrightarrow>
               classification c ! nat object \<in> set (medoids c))) \<and>
         (\<forall>r. partition_around_medoids cdm k matrix = Some (Inr r) \<longrightarrow>
            length (pam_result.classification r) = nat (rows matrix) \<and>
            (\<forall>object. 0 \<le> object \<and> object < rows matrix \<longrightarrow>
               pam_result.classification r ! nat object \<in> set (pam_result.medoids r)))"
proof -
  have ne: "cdm matrix \<noteq> []" using assms by (rule distances_nonempty)
  have a: "length (classification c) = nat (rows matrix) \<and>
      (\<forall>object. 0 \<le> object \<and> object < rows matrix \<longrightarrow>
         classification c ! nat object \<in> set (medoids c))"
    if p: "pam_point (cdm matrix) c" for c
  proof -
    have wf: "pam_wf (length (cdm matrix)) c"
      using pam_point_inv [OF ne p] by simp
    have len: "length (classification c) = length matrix"
      using wf assms(1) by (simp add: pam_wf_def rows_def)
    have "classification c ! nat object \<in> set (medoids c)"
      if "0 \<le> object" "object < rows matrix" for object
    proof -
      have "nat object < length (classification c)"
        using that len by (simp add: rows_def nat_less_iff)
      then have "classification c ! nat object \<in> set (classification c)" by (rule nth_mem)
      then show ?thesis using wf by (auto simp: pam_wf_def)
    qed
    then show ?thesis using len by (simp add: rows_def)
  qed
  have "length (pam_result.classification r) = nat (rows matrix) \<and>
      (\<forall>object. 0 \<le> object \<and> object < rows matrix \<longrightarrow>
         pam_result.classification r ! nat object \<in> set (pam_result.medoids r))"
    if res: "partition_around_medoids cdm k matrix = Some (Inr r)" for r
  proof -
    obtain c where "2 \<le> k" "k \<le> rows matrix" "pam_point (cdm matrix) c"
      "pam_result.medoids r = medoids c" "pam_result.classification r = classification c"
      using res by (rule partition_point)
    then show ?thesis using a [of c] by simp
  qed
  then show ?thesis using a by blast
qed

theorem classification_in_medoids_witness:
  "rows (line_distances two_pairs) = rows two_pairs \<and> 2 \<le> rows two_pairs \<and>
   partition_around_medoids line_distances 2 two_pairs =
     Some (Inr \<lparr> pam_result.medoids = [1, 2], pam_result.classification = [1, 1, 2, 2] \<rparr>) \<and>
   length [1, 1, 2, 2 :: int] = nat (rows two_pairs) \<and>
   [1, 1, 2, 2 :: int] ! nat 3 \<in> set [1, 2]"
proof -
  have h: "rows (line_distances two_pairs) = rows two_pairs" "(2::int) \<le> 2"
    "2 \<le> rows two_pairs"
    by (simp_all add: rows_def line_distances_def two_pairs_def)
  have o: "(0::int) \<le> 3 \<and> 3 < rows two_pairs"
    by (simp add: rows_def two_pairs_def)
  show ?thesis
    using classification_in_medoids
        [where cdm = line_distances and matrix = two_pairs and k = 2]
      h o two_pairs_result
    by auto
qed

text \<open>
  Claim C10, as the code has it: when no non-selected candidate has a gain above
  \<open>dbl_min\<close> (in particular when every gain is 0, as it is when all pairwise distances
  are equal or when a single candidate is left), \<open>find_next_medoid\<close> returns 0 whether
  or not object 0 is a medoid; when object 0 is a medoid already, \<open>add_medoid\<close> of 0
  leaves both sets as they are; and Build can end with fewer than \<open>k\<close> medoids: it
  does for the points \<open>0, 1, 3\<close> and \<open>k = 3\<close>.
\<close>

theorem find_next_medoid_default:
  "((\<forall>i\<in>set (nonselected c). gain distances c i \<le> dbl_min) \<longrightarrow>
      find_next_medoid distances c = 0) \<and>
   ((\<forall>i\<in>set (nonselected c). gain distances c i = 0) \<longrightarrow>
      find_next_medoid distances c = 0) \<and>
   (pam_wf n c \<and> all_equal_distances n distances d \<longrightarrow>
      find_next_medoid distances c = 0) \<and>
   (length (nonselected c) = 1 \<longrightarrow> find_next_medoid distances c = 0) \<and>
   (0 \<in> set (medoids c) \<and> 0 \<notin> set (nonselected c) \<longrightarrow>
      medoids (add_medoid c 0) = medoids c \<and> nonselected (add_medoid c 0) = nonselected c) \<and>
   int (length (medoids (build 3 (line_distances three_points)))) < 3"
proof -
  have a: "find_next_medoid distances c = 0"
    if "\<forall>i\<in>set (nonselected c). gain distances c i \<le> dbl_min"
    using that by (rule find_next_medoid_no_gain)
  have z: "find_next_medoid distances c = 0"
    if "\<forall>i\<in>set (nonselected c). gain distances c i = 0"
    using a that dbl_min_pos by simp
  have e: "find_next_medoid distances c = 0"
    if "pam_wf n c" "all_equal_distances n distances d"
    using z gain_equal_distances [OF that] by simp
  have b: "find_next_medoid distances c = 0" if len: "length (nonselected c) = 1"
  proof -
    obtain j where j: "nonselected c = [j]"
      using len by (cases "nonselected c") auto
    have "gain distances c j = 0" by (rule gain_last_candidate [OF j])
    then show ?thesis using z j by simp
  qed
  have d: "int (length (medoids (build 3 (line_distances three_points)))) < 3"
    by (simp add: three_points_build3 three_points_second_def)
  show ?thesis using a z e b d add_medoid_present [of 0 c] by blast
qed

theorem find_next_medoid_default_witness:
  "build 2 (line_distances three_points) = three_points_second \<and>
   length (nonselected three_points_second) = 1 \<and>
   gain (line_distances three_points) three_points_second 2 = 0 \<and>
   find_next_medoid (line_distances three_points) three_points_second = 0 \<and>
   medoids (add_medoid three_points_second 0) = medoids three_points_second \<and>
   nonselected (add_medoid three_points_second 0) = nonselected three_points_second \<and>
   pam_wf 5 (pam_data_init 5 0) \<and> all_equal_distances 5 equidistant 1 \<and>
   find_next_medoid equidistant (pam_data_init 5 0) = 0"
proof -
  have n: "nonselected three_points_second = [2]" "0 \<in> set (medoids three_points_second)"
    "0 \<notin> set (nonselected three_points_second)"
    by (simp_all add: three_points_second_def)
  have g: "gain (line_distances three_points) three_points_second 2 = 0"
    by (rule gain_last_candidate [OF n(1)])
  have w: "pam_wf 5 (pam_data_init 5 0)"
    using pam_data_init_wf [of 0 5] by simp
  have q: "all_equal_distances 5 equidistant 1"
    by (simp add: all_equal_distances_def equidistant_def coeff_def upto.simps)
  show ?thesis
    using find_next_medoid_default
        [where c = three_points_second and distances = "line_distances three_points"
           and n = 3 and d = 1]
      find_next_medoid_default
        [where c = "pam_data_init 5 0" and distances = equidistant and n = 5 and d = 1]
      three_points_build2 n g w q
    by simp
qed

text \<open>
  Claim C10 as it is worded lets \<open>add_medoid\<close> of 0 leave the sets unchanged whenever no
  candidate has a gain above \<open>dbl_min\<close>. In the first Build iteration on the points
  \<open>0, 1, 3\<close> the medoid is object 1, both candidates 0 and 2 have gain 0,
  \<open>find_next_medoid\<close> returns 0, and \<open>add_medoid\<close> moves object 0 from the non-selected
  set to the medoids.
\<close>

theorem add_medoid_default_changes_sets:
  "pam_data_init (rows (line_distances three_points))
     (find_initial_medoid (line_distances three_points)) = three_points_start \<and>
   medoids three_points_start = [1] \<and> nonselected three_points_start = [0, 2] \<and>
   gain (line_distances three_points) three_points_start 0 \<le> dbl_min \<and>
   gain (line_distances three_points) three_points_start 2 \<le> dbl_min \<and>
   find_next_medoid (line_distances three_points) three_points_start = 0 \<and>
   medoids (add_medoid three_points_start 0) = [0, 1] \<and>
   nonselected (add_medoid three_points_start 0) = [2]"
  using three_points_init by (simp add: pam_eval)

end
